theory Spec2Isabelle
  imports Complex_Main "HOL-Library.AList"
begin

section \<open>Python strings\<close>

text \<open>
  A Python \<open>str\<close> is modelled as a \<open>string\<close> whose characters are the code points
  0 to 255. The classifications below are those of \<open>str.isspace\<close>,
  \<open>str.isalnum\<close> and \<open>str.lower\<close> on that range.
\<close>

definition isspace :: "char \<Rightarrow> bool" where
  "isspace c =
     (let n = (of_char c :: nat)
      in (9 \<le> n \<and> n \<le> 13) \<or> (28 \<le> n \<and> n \<le> 32) \<or> n = 133 \<or> n = 160)"

definition isalnum :: "char \<Rightarrow> bool" where
  "isalnum c =
     (let n = (of_char c :: nat)
      in (48 \<le> n \<and> n \<le> 57) \<or> (65 \<le> n \<and> n \<le> 90) \<or> (97 \<le> n \<and> n \<le> 122)
         \<or> n = 170 \<or> n = 178 \<or> n = 179 \<or> n = 181 \<or> n = 185 \<or> n = 186
         \<or> (188 \<le> n \<and> n \<le> 190) \<or> (192 \<le> n \<and> n \<le> 214)
         \<or> (216 \<le> n \<and> n \<le> 246) \<or> (248 \<le> n \<and> n \<le> 255))"

definition lower_char :: "char \<Rightarrow> char" where
  "lower_char c =
     (let n = (of_char c :: nat)
      in if (65 \<le> n \<and> n \<le> 90) \<or> (192 \<le> n \<and> n \<le> 214) \<or> (216 \<le> n \<and> n \<le> 222)
         then char_of (n + 32) else c)"

definition lower :: "string \<Rightarrow> string" where
  "lower s = map lower_char s"

text \<open>\<open>s.isalnum()\<close>: every character is alphanumeric and there is at least one.\<close>

definition str_isalnum :: "string \<Rightarrow> bool" where
  "str_isalnum s = (s \<noteq> [] \<and> list_all isalnum s)"

text \<open>
  \<open>s.split()\<close> with no argument: the maximal runs of non-whitespace characters, in
  order. \<open>cur\<close> is the run being read.
\<close>

fun split_from :: "string \<Rightarrow> string \<Rightarrow> string list" where
  "split_from cur [] = (if cur = [] then [] else [cur])"
| "split_from cur (c # cs) =
     (if isspace c
      then (if cur = [] then split_from [] cs else cur # split_from [] cs)
      else split_from (cur @ [c]) cs)"

definition str_split :: "string \<Rightarrow> string list" where
  "str_split s = split_from [] s"

fun startswith :: "string \<Rightarrow> string \<Rightarrow> bool" where
  "startswith s [] = True"
| "startswith [] (p # ps) = False"
| "startswith (c # cs) (p # ps) = (c = p \<and> startswith cs ps)"

text \<open>\<open>sub in s\<close> for strings: \<open>sub\<close> occurs as a contiguous substring of \<open>s\<close>.\<close>

fun contains :: "string \<Rightarrow> string \<Rightarrow> bool" where
  "contains [] sub = (sub = [])"
| "contains (c # cs) sub = (startswith (c # cs) sub \<or> contains cs sub)"

section \<open>The domain catalog\<close>

text \<open>
  \<open>self.domains\<close>: a dictionary literal, kept as an association list in declaration
  order, because \<open>_identify_domain\<close> iterates it in that order.
\<close>

definition domains :: "(string \<times> string list) list" where
  "domains =
    [(''general_academic'', [''education'', ''learning'', ''study'', ''course'', ''tutorial'', ''guide'', ''introduction'']),
     (''science'', [''research'', ''experiment'', ''theory'', ''analysis'', ''methodology'', ''scientific'']),
     (''mathematics'', [''math'', ''calculus'', ''algebra'', ''statistics'', ''probability'', ''equations'']),
     (''general_tech'', [''technology'', ''digital'', ''computer'', ''software'', ''hardware'', ''system'', ''platform'']),
     (''programming'', [''coding'', ''development'', ''software'', ''algorithm'', ''debugging'', ''implementation'']),
     (''languages'', [''python'', ''javascript'', ''java'', ''cpp'', ''rust'', ''golang'', ''ruby'', ''php'']),
     (''web_dev'', [''frontend'', ''backend'', ''fullstack'', ''web'', ''html'', ''css'', ''api'', ''rest'']),
     (''data_science'', [''analytics'', ''machine learning'', ''data mining'', ''big data'', ''visualization'', ''prediction'']),
     (''business'', [''management'', ''strategy'', ''planning'', ''organization'', ''leadership'', ''innovation'']),
     (''marketing'', [''advertising'', ''branding'', ''marketing'', ''social media'', ''content'', ''seo'']),
     (''finance'', [''investment'', ''trading'', ''economics'', ''financial'', ''accounting'', ''market'']),
     (''design'', [''design'', ''creative'', ''art'', ''visual'', ''graphic'', ''typography'', ''layout'']),
     (''media'', [''video'', ''audio'', ''multimedia'', ''animation'', ''production'', ''editing'']),
     (''writing'', [''content'', ''documentation'', ''technical writing'', ''blogging'', ''copywriting'']),
     (''engineering'', [''mechanical'', ''electrical'', ''civil'', ''chemical'', ''industrial'', ''engineering'']),
     (''healthcare'', [''medical'', ''health'', ''clinical'', ''patient'', ''diagnosis'', ''treatment'']),
     (''manufacturing'', [''production'', ''assembly'', ''quality'', ''automation'', ''industrial'', ''process''])]"

definition domain_keys :: "string list" where
  "domain_keys = map fst domains"

section \<open>Query classification\<close>

text \<open>
  \<open>_categorize_query\<close>: the four checks of the \<open>categories\<close> dictionary, tried in
  its declaration order; the first check that holds names the category.
\<close>

definition categories :: "(string \<times> (string \<Rightarrow> bool)) list" where
  "categories =
    [(''exact'', \<lambda>q. length (str_split q) > 2),
     (''partial'', \<lambda>q. length (str_split q) = 1),
     (''fuzzy'', \<lambda>q. list_ex (\<lambda>c. \<not> isalnum c \<and> \<not> isspace c) q),
     (''compound'', \<lambda>q. contains q '' AND '' \<or> contains q '' OR '')]"

fun first_category :: "(string \<times> (string \<Rightarrow> bool)) list \<Rightarrow> string \<Rightarrow> string" where
  "first_category [] q = ''general''"
| "first_category ((category, check) # rest) q =
     (if check q then category else first_category rest q)"

definition categorize_query :: "string \<Rightarrow> string" where
  "categorize_query q = first_category categories q"

text \<open>
  \<open>_identify_domain\<close>: the first catalog domain one of whose (lowercased) seed terms
  is a token of the lowercased query; \<open>general\<close> when there is none.
\<close>

fun first_domain :: "(string \<times> string list) list \<Rightarrow> string set \<Rightarrow> string" where
  "first_domain [] query_terms = ''general''"
| "first_domain ((domain, terms) # rest) query_terms =
     (if query_terms \<inter> set (map lower terms) \<noteq> {} then domain
      else first_domain rest query_terms)"

definition identify_domain :: "string \<Rightarrow> string" where
  "identify_domain q = first_domain domains (set (str_split (lower q)))"

text \<open>\<open>_identify_query_pattern\<close>: a label read off the lowercased query.\<close>

definition identify_query_pattern :: "string \<Rightarrow> string" where
  "identify_query_pattern q0 =
     (let q = lower q0
      in if CHR 0x22 \<in> set q then ''phrase''
         else if contains q '' and '' then ''compound''
         else if contains q '' or '' then ''broad''
         else if startswith q ''advanced '' then ''specific''
         else ''simple'')"

section \<open>The adaptive query strategy: state\<close>

datatype error = KeyError string | IndexError | ValueError

datatype phase = Domain_exploration | Pattern_exploration | Optimization

text \<open>One search result: \<open>title\<close> is read with \<open>result["title"]\<close>, the other two
  with \<open>result.get\<close>, so they may be absent.\<close>

record result =
  title :: string
  score :: "rat option"
  matched :: "string option"

record rate =
  success :: nat
  total :: nat

text \<open>
  The learned-pattern record. Python floats are modelled as exact rationals.
  \<open>successful_domains\<close> is a Python set that the generators enumerate with
  \<open>list(...)\<close>; it is kept as a duplicate-free list, and the order of that list stands for
  the unspecified iteration order of the set.
\<close>

record learned_patterns =
  effective_terms :: "string set"
  ineffective_terms :: "string set"
  optimal_query_length :: rat
  best_performing_categories :: "string list"
  successful_domains :: "string list"
  successful_patterns :: "string list"

text \<open>
  The strategy object. Dictionaries are association lists in insertion order;
  \<open>AList.update\<close> replaces the entry of a present key in place and appends a new key,
  as assignment to a Python dictionary does. \<open>self.domains\<close> and
  \<open>self.query_patterns\<close> are never assigned after construction and are constants of
  the model.
\<close>

record strategy =
  query_success_rates :: "(string \<times> rate) list"
  learned_patterns :: learned_patterns
  current_phase :: phase
  exploration_rounds :: nat
  max_exploration_rounds :: nat
  domain_weights :: "(string \<times> rat) list"

definition new_strategy :: strategy where
  "new_strategy =
     \<lparr>query_success_rates = [],
      learned_patterns =
        \<lparr>effective_terms = {}, ineffective_terms = {}, optimal_query_length = 0,
         best_performing_categories = [], successful_domains = [],
         successful_patterns = []\<rparr>,
      current_phase = Domain_exploration,
      exploration_rounds = 0,
      max_exploration_rounds = 3,
      domain_weights = map (\<lambda>domain. (domain, 1)) domain_keys\<rparr>"

text \<open>\<open>d[k]\<close> on a dictionary: the stored entry, or \<open>KeyError\<close>.\<close>

definition lookup :: "(string \<times> 'v) list \<Rightarrow> string \<Rightarrow> error + 'v" where
  "lookup d k = (case map_of d k of None \<Rightarrow> Inl (KeyError k) | Some v \<Rightarrow> Inr v)"

definition and_then :: "error + 'a \<Rightarrow> ('a \<Rightarrow> error + 'b) \<Rightarrow> error + 'b" where
  "and_then m f = (case m of Inl e \<Rightarrow> Inl e | Inr x \<Rightarrow> f x)"

text \<open>\<open>query_success_rates\<close> is a \<open>defaultdict\<close>: reading a missing category
  gives the zero counters.\<close>

definition get_rate :: "(string \<times> rate) list \<Rightarrow> string \<Rightarrow> rate" where
  "get_rate rates k =
     (case map_of rates k of None \<Rightarrow> \<lparr>success = 0, total = 0\<rparr> | Some v \<Rightarrow> v)"

definition bump_total :: "string \<Rightarrow> (string \<times> rate) list \<Rightarrow> (string \<times> rate) list" where
  "bump_total k rates =
     (let v = get_rate rates k in AList.update k (v\<lparr>total := total v + 1\<rparr>) rates)"

definition bump_success :: "string \<Rightarrow> (string \<times> rate) list \<Rightarrow> (string \<times> rate) list" where
  "bump_success k rates =
     (let v = get_rate rates k in AList.update k (v\<lparr>success := success v + 1\<rparr>) rates)"

section \<open>The adaptive query strategy: analyze_response\<close>

text \<open>
  The loop over the results of a successful query. The accumulator is the pair of the
  local \<open>successful_terms\<close> and the list \<open>successful_patterns\<close>.
\<close>

fun scan_results ::
  "string \<Rightarrow> result list \<Rightarrow> string set \<times> string list \<Rightarrow> string set \<times> string list" where
  "scan_results q [] acc = acc"
| "scan_results q (r # rs) (successful_terms, patterns) =
     (let title_terms = set (str_split (lower (title r)));
          query_terms = set (str_split (lower q));
          matching_terms = title_terms \<inter> query_terms;
          successful_terms1 = successful_terms \<union> matching_terms
      in if (case score r of None \<Rightarrow> 0 | Some s \<Rightarrow> s) > 7 / 10
         then (let pattern = identify_query_pattern q
               in scan_results q rs
                    (successful_terms1 \<union> query_terms,
                     if pattern \<noteq> [] \<and> pattern \<notin> set patterns
                     then patterns @ [pattern] else patterns))
         else scan_results q rs (successful_terms1, patterns))"

text \<open>
  \<open>analyze_response\<close> mutates the strategy in place and returns nothing. The model
  returns the exception raised, if any, with the strategy as the call leaves it: the
  only statement that can raise on well-typed arguments is the read of
  \<open>self.domain_weights[domain]\<close> at the end, and everything before it has been
  written by then.
\<close>

definition analyze_response ::
  "strategy \<Rightarrow> string \<Rightarrow> result list \<Rightarrow> error option \<times> strategy" where
  "analyze_response st q results =
     (let succeeded = (results \<noteq> []);
          query_type = categorize_query q;
          domain = identify_domain q;
          rates1 = bump_total query_type (query_success_rates st);
          rates2 = (if succeeded then bump_success query_type rates1 else rates1);
          lp = learned_patterns st;
          lp1 =
            (if succeeded
             then (let (successful_terms, patterns) =
                         scan_results q results ({}, successful_patterns lp)
                   in lp\<lparr>successful_domains := List.insert domain (successful_domains lp),
                         successful_patterns := patterns,
                         effective_terms := effective_terms lp \<union> successful_terms,
                         optimal_query_length :=
                           optimal_query_length lp * (8 / 10)
                           + of_nat (length (str_split q)) * (2 / 10)\<rparr>)
             else (let terms = str_split q;
                       clean_terms =
                         filter (\<lambda>t. str_isalnum t \<and> lower t \<notin> {''and'', ''or'', ''not''}) terms
                   in lp\<lparr>ineffective_terms :=
                           (ineffective_terms lp \<union> set clean_terms) - effective_terms lp\<rparr>));
          lp2 =
            (if succeeded \<and> query_type \<notin> set (best_performing_categories lp1)
             then lp1\<lparr>best_performing_categories :=
                        best_performing_categories lp1 @ [query_type]\<rparr>
             else lp1);
          st1 = st\<lparr>query_success_rates := rates2, learned_patterns := lp2\<rparr>
      in case map_of (domain_weights st1) domain of
           None \<Rightarrow> (Some (KeyError domain), st1)
         | Some w \<Rightarrow>
             (None,
              st1\<lparr>domain_weights :=
                    AList.update domain
                      (if succeeded then min 2 (w * (12 / 10)) else max (1 / 10) (w * (8 / 10)))
                      (domain_weights st1)\<rparr>))"

section \<open>The random module\<close>

text \<open>
  The generators draw from Python's global random generator. The model takes the
  sequence of raw draws as a function \<open>r\<close> and a cursor \<open>i\<close> into it; every
  operation reads at the cursor and returns the advanced cursor. Each behaviour of the
  program under some outcome of the generator is the behaviour of the model under some
  \<open>r\<close>.
\<close>

type_synonym rng = "nat \<Rightarrow> nat"

text \<open>\<open>random.random()\<close>: a multiple of \<open>2 ^ -53\<close> in the half-open unit interval.\<close>

definition random :: "rng \<Rightarrow> nat \<Rightarrow> rat \<times> nat" where
  "random r i = (of_nat (r i mod 2 ^ 53) / 2 ^ 53, Suc i)"

text \<open>\<open>random.choice(seq)\<close>: an element of \<open>seq\<close>, or \<open>IndexError\<close> on an empty one.\<close>

definition choice :: "'a list \<Rightarrow> rng \<Rightarrow> nat \<Rightarrow> error + ('a \<times> nat)" where
  "choice xs r i =
     (if xs = [] then Inl IndexError else Inr (xs ! (r i mod length xs), Suc i))"

text \<open>
  \<open>random.sample(population, k)\<close>: \<open>k\<close> elements at distinct positions, in the order
  drawn, or \<open>ValueError\<close> when \<open>k\<close> exceeds the population.
\<close>

primrec draw_distinct :: "nat \<Rightarrow> 'a list \<Rightarrow> rng \<Rightarrow> nat \<Rightarrow> 'a list \<times> nat" where
  "draw_distinct 0 xs r i = ([], i)"
| "draw_distinct (Suc k) xs r i =
     (let j = r i mod length xs;
          (ys, i') = draw_distinct k (take j xs @ drop (Suc j) xs) r (Suc i)
      in (xs ! j # ys, i'))"

definition sample :: "'a list \<Rightarrow> nat \<Rightarrow> rng \<Rightarrow> nat \<Rightarrow> error + ('a list \<times> nat)" where
  "sample xs k r i = (if k > length xs then Inl ValueError else Inr (draw_distinct k xs r i))"

section \<open>The adaptive query strategy: query generation\<close>

record query_entry =
  query :: string
  qtype :: string
  description :: string
  domain :: string

text \<open>
  \<open>self.query_patterns\<close>: each pattern maps a seed term to a query string; four of
  them draw a second word with \<open>random.choice\<close>.
\<close>

definition with_choice ::
  "string list \<Rightarrow> (string \<Rightarrow> string) \<Rightarrow> rng \<Rightarrow> nat \<Rightarrow> error + (string \<times> nat)" where
  "with_choice ws f r i = and_then (choice ws r i) (\<lambda>(w, i'). Inr (f w, i'))"

definition query_patterns ::
  "(string \<times> (string \<Rightarrow> rng \<Rightarrow> nat \<Rightarrow> error + (string \<times> nat))) list" where
  "query_patterns =
    [(''simple'', \<lambda>t r i. Inr (t, i)),
     (''quoted'', \<lambda>t r i. Inr ([CHR 0x22] @ t @ [CHR 0x22], i)),
     (''and_combo'', \<lambda>t. with_choice [''guide'', ''tutorial'', ''introduction''] (\<lambda>w. t @ '' AND '' @ w)),
     (''or_combo'', \<lambda>t. with_choice [''course'', ''training'', ''learning''] (\<lambda>w. t @ '' OR '' @ w)),
     (''beginner'', \<lambda>t r i. Inr (''beginner '' @ t, i)),
     (''advanced'', \<lambda>t r i. Inr (''advanced '' @ t, i)),
     (''learn'', \<lambda>t r i. Inr (''learn '' @ t, i)),
     (''with'', \<lambda>t. with_choice [''examples'', ''practice'', ''exercises''] (\<lambda>w. t @ '' with '' @ w)),
     (''for'', \<lambda>t. with_choice [''beginners'', ''professionals'', ''students''] (\<lambda>w. t @ '' for '' @ w)),
     (''course'', \<lambda>t r i. Inr (t @ '' course'', i)),
     (''tutorial'', \<lambda>t r i. Inr (t @ '' tutorial'', i)),
     (''guide'', \<lambda>t r i. Inr (''complete '' @ t @ '' guide'', i))]"

subsection \<open>Domain exploration\<close>

text \<open>\<open>sorted(items, key=weight, reverse=True)\<close>: descending by weight, entries of
  equal weight in their original order.\<close>

definition sorted_by_weight :: "(string \<times> rat) list \<Rightarrow> (string \<times> rat) list" where
  "sorted_by_weight items = sort_key (\<lambda>x. - snd x) items"

text \<open>The first loop: a domain is taken when the draw is below its weight; the loop
  breaks at three.\<close>

fun select_weighted ::
  "(string \<times> rat) list \<Rightarrow> string list \<Rightarrow> rng \<Rightarrow> nat \<Rightarrow> string list \<times> nat" where
  "select_weighted [] selected r i = (selected, i)"
| "select_weighted ((d, weight) # rest) selected r i =
     (let (u, i') = random r i
      in if u < weight
         then (let selected' = selected @ [d]
               in if length selected' \<ge> 3 then (selected', i')
                  else select_weighted rest selected' r i')
         else select_weighted rest selected r i')"

text \<open>
  The second loop, \<open>while len(selected_domains) < 3\<close>, draws catalog domains until
  three distinct ones are selected. It need not end (a source that repeats one domain
  forever), so it is a partial function: \<open>None\<close> is the loop that never returns.
\<close>

partial_function (option) fill_selection ::
  "string list \<Rightarrow> rng \<Rightarrow> nat \<Rightarrow> (error + (string list \<times> nat)) option" where
  "fill_selection selected r i =
     (if length selected < 3
      then (case choice domain_keys r i of
              Inl e \<Rightarrow> Some (Inl e)
            | Inr (d, i') \<Rightarrow>
                fill_selection (if d \<notin> set selected then selected @ [d] else selected) r i')
      else Some (Inr (selected, i)))"

fun domain_queries :: "string list \<Rightarrow> rng \<Rightarrow> nat \<Rightarrow> error + (query_entry list \<times> nat)" where
  "domain_queries [] r i = Inr ([], i)"
| "domain_queries (d # rest) r i =
     and_then (lookup domains d) (\<lambda>terms.
     and_then (choice terms r i) (\<lambda>(t, i1).
     and_then (domain_queries rest r i1) (\<lambda>(qs, i2).
       Inr (\<lparr>query = t, qtype = ''domain_exploration'',
             description = ''Testing '' @ d @ '' domain'', domain = d\<rparr> # qs, i2))))"

definition generate_domain_exploration_queries ::
  "strategy \<Rightarrow> rng \<Rightarrow> nat \<Rightarrow> (error + (query_entry list \<times> nat)) option" where
  "generate_domain_exploration_queries st r i =
     (let weighted_domains = sorted_by_weight (domain_weights st);
          (selected, i1) = select_weighted weighted_domains [] r i
      in case fill_selection selected r i1 of
           None \<Rightarrow> None
         | Some (Inl e) \<Rightarrow> Some (Inl e)
         | Some (Inr (selected_domains, i2)) \<Rightarrow> Some (domain_queries selected_domains r i2))"

subsection \<open>Pattern exploration and optimization\<close>

text \<open>\<open>x or y\<close> on a collection: \<open>y\<close> when \<open>x\<close> is empty.\<close>

definition or_else :: "'a list \<Rightarrow> 'a list \<Rightarrow> 'a list" where
  "or_else xs ys = (if xs = [] then ys else xs)"

fun pattern_queries :: "string list \<Rightarrow> rng \<Rightarrow> nat \<Rightarrow> error + (query_entry list \<times> nat)" where
  "pattern_queries [] r i = Inr ([], i)"
| "pattern_queries (d # rest) r i =
     and_then (lookup domains d) (\<lambda>terms.
     and_then (choice terms r i) (\<lambda>(t, i1).
     and_then (choice (map fst query_patterns) r i1) (\<lambda>(pattern_type, i2).
     and_then (lookup query_patterns pattern_type) (\<lambda>pattern_func.
     and_then (pattern_func t r i2) (\<lambda>(q, i3).
     and_then (pattern_queries rest r i3) (\<lambda>(qs, i4).
       Inr (\<lparr>query = q, qtype = pattern_type,
             description = ''Testing '' @ pattern_type @ '' pattern in '' @ d,
             domain = d\<rparr> # qs, i4)))))))"

definition generate_pattern_exploration_queries ::
  "strategy \<Rightarrow> rng \<Rightarrow> nat \<Rightarrow> error + (query_entry list \<times> nat)" where
  "generate_pattern_exploration_queries st r i =
     (let successful = or_else (successful_domains (learned_patterns st)) domain_keys
      in and_then (sample successful (min 2 (length successful)) r i) (\<lambda>(ds, i1).
           pattern_queries ds r i1))"

fun optimized_queries ::
  "string list \<Rightarrow> string list \<Rightarrow> rng \<Rightarrow> nat \<Rightarrow> error + (query_entry list \<times> nat)" where
  "optimized_queries patterns [] r i = Inr ([], i)"
| "optimized_queries patterns (d # rest) r i =
     and_then (choice patterns r i) (\<lambda>(pattern_type, i1).
     and_then (lookup domains d) (\<lambda>terms.
     and_then (choice terms r i1) (\<lambda>(t, i2).
     and_then (lookup query_patterns pattern_type) (\<lambda>pattern_func.
     and_then (pattern_func t r i2) (\<lambda>(q, i3).
     and_then (optimized_queries patterns rest r i3) (\<lambda>(qs, i4).
       Inr (\<lparr>query = q, qtype = ''optimized'',
             description = ''Optimized '' @ pattern_type @ '' query for '' @ d,
             domain = d\<rparr> # qs, i4)))))))"

definition generate_optimized_queries ::
  "strategy \<Rightarrow> rng \<Rightarrow> nat \<Rightarrow> error + (query_entry list \<times> nat)" where
  "generate_optimized_queries st r i =
     (let patterns = or_else (successful_patterns (learned_patterns st)) (map fst query_patterns);
          successful = or_else (successful_domains (learned_patterns st)) domain_keys
      in and_then (sample successful (min 2 (length successful)) r i) (\<lambda>(ds, i1).
           optimized_queries patterns ds r i1))"

subsection \<open>generate_next_queries\<close>

text \<open>
  The argument \<open>previous_results\<close> is never read and is left out. The result is
  \<open>None\<close> when the call does not return; otherwise the list of queries or the
  exception, with the strategy as the call leaves it. The generators write nothing to
  the strategy, so a call that raises leaves it as it was.
\<close>

definition generate_next_queries ::
  "strategy \<Rightarrow> rng \<Rightarrow> nat \<Rightarrow> ((error + query_entry list) \<times> strategy) option" where
  "generate_next_queries st r i =
     (if current_phase st = Domain_exploration
      then (case generate_domain_exploration_queries st r i of
              None \<Rightarrow> None
            | Some (Inl e) \<Rightarrow> Some (Inl e, st)
            | Some (Inr (queries, i')) \<Rightarrow>
                (let st1 = st\<lparr>exploration_rounds := exploration_rounds st + 1\<rparr>
                 in Some (Inr queries,
                          if exploration_rounds st1 \<ge> max_exploration_rounds st1
                          then st1\<lparr>current_phase := Pattern_exploration\<rparr> else st1)))
      else if current_phase st = Pattern_exploration
      then (case generate_pattern_exploration_queries st r i of
              Inl e \<Rightarrow> Some (Inl e, st)
            | Inr (queries, i') \<Rightarrow>
                (let st1 = st\<lparr>exploration_rounds := exploration_rounds st + 1\<rparr>
                 in Some (Inr queries,
                          if exploration_rounds st1 \<ge> max_exploration_rounds st1 * 2
                          then st1\<lparr>current_phase := Optimization\<rparr> else st1)))
      else (case generate_optimized_queries st r i of
              Inl e \<Rightarrow> Some (Inl e, st)
            | Inr (queries, i') \<Rightarrow> Some (Inr queries, st)))"

section \<open>Sequences of calls\<close>

text \<open>
  A client of the strategy calls its two methods in any order; a call that raises may be
  caught by the client, which goes on with the strategy as the call left it. A call that
  never returns ends the sequence: \<open>run\<close> is \<open>None\<close> then.
\<close>

datatype call = Analyze string "result list" | Generate rng nat

fun exec :: "call \<Rightarrow> strategy \<Rightarrow> strategy option" where
  "exec (Analyze q results) st = Some (snd (analyze_response st q results))"
| "exec (Generate r i) st = map_option snd (generate_next_queries st r i)"

fun run :: "call list \<Rightarrow> strategy \<Rightarrow> strategy option" where
  "run [] st = Some st"
| "run (c # cs) st = (case exec c st of None \<Rightarrow> None | Some st' \<Rightarrow> run cs st')"

section \<open>The result analyzer\<close>

record ranking_factors =
  date_influenced :: bool
  popularity_signals :: bool
  text_relevance :: rat

record tokenization =
  splits_on_space :: bool
  removes_stopwords :: bool
  uses_stemming :: bool

record characteristics =
  ranking :: ranking_factors
  matching_type :: string
  tokens :: tokenization

definition check_date_influence :: "result list \<Rightarrow> bool" where
  "check_date_influence results = False"

definition check_popularity_signals :: "result list \<Rightarrow> bool" where
  "check_popularity_signals results = False"

definition analyze_text_relevance :: "result list \<Rightarrow> rat" where
  "analyze_text_relevance results =
     (if results = [] then 0
      else sum_list (map (\<lambda>r. case score r of None \<Rightarrow> 0 | Some s \<Rightarrow> s) results)
           / of_nat (length results))"

definition detect_ranking_factors :: "result list \<Rightarrow> ranking_factors" where
  "detect_ranking_factors results =
     \<lparr>date_influenced = check_date_influence results,
      popularity_signals = check_popularity_signals results,
      text_relevance = analyze_text_relevance results\<rparr>"

definition detect_matching_algorithm :: "result list \<Rightarrow> string" where
  "detect_matching_algorithm results =
     (if results = [] then ''unknown''
      else (let fuzzy_count = length (filter (\<lambda>r. matched r = Some ''fuzzy'') results);
                exact_count = length (filter (\<lambda>r. matched r = Some ''exact'') results)
            in if fuzzy_count > exact_count then ''fuzzy''
               else if exact_count > 0 then ''exact''
               else ''unknown''))"

definition detect_tokenization_method :: "result list \<Rightarrow> tokenization" where
  "detect_tokenization_method results =
     \<lparr>splits_on_space = (results \<noteq> []),
      removes_stopwords = (results \<noteq> []),
      uses_stemming = False\<rparr>"

definition analyze_results :: "result list \<Rightarrow> characteristics" where
  "analyze_results results =
     (if results = []
      then \<lparr>ranking = \<lparr>date_influenced = False, popularity_signals = False, text_relevance = 0\<rparr>,
            matching_type = ''unknown'',
            tokens = \<lparr>splits_on_space = False, removes_stopwords = False, uses_stemming = False\<rparr>\<rparr>
      else \<lparr>ranking = detect_ranking_factors results,
            matching_type = detect_matching_algorithm results,
            tokens = detect_tokenization_method results\<rparr>)"

text \<open>
  A stored sample and the sample database, a dictionary from query string to sample.
  The analyzer reads the database only through \<open>len\<close> and \<open>values()\<close>.
\<close>

record sample_entry =
  results :: "result list"
  timestamp :: rat
  sample_characteristics :: characteristics
  timing :: rat

type_synonym database = "(string \<times> sample_entry) list"

text \<open>\<open>collect_sample\<close>; the clock readings are inputs of the model.\<close>

definition collect_sample ::
  "database \<Rightarrow> string \<Rightarrow> result list \<Rightarrow> rat \<Rightarrow> rat \<Rightarrow> sample_entry \<times> database" where
  "collect_sample db q rs now elapsed =
     (let analysis = \<lparr>results = rs, timestamp = now,
                      sample_characteristics = analyze_results rs, timing = elapsed\<rparr>
      in (analysis, AList.update q analysis db))"

record patterns =
  fuzzy_match_ratio :: rat
  exact_match_ratio :: rat
  average_response_time :: rat

definition analyze_patterns :: "database \<Rightarrow> patterns" where
  "analyze_patterns db =
     (if db = []
      then \<lparr>fuzzy_match_ratio = 0, exact_match_ratio = 0, average_response_time = 0\<rparr>
      else (let total_queries = length db;
                fuzzy_matches =
                  length (filter (\<lambda>s. matching_type (sample_characteristics s) = ''fuzzy'')
                            (map snd db))
            in \<lparr>fuzzy_match_ratio =
                   (if total_queries > 0 then of_nat fuzzy_matches / of_nat total_queries else 0),
                 exact_match_ratio =
                   (if total_queries > 0
                    then (of_nat total_queries - of_nat fuzzy_matches) / of_nat total_queries
                    else 0),
                 average_response_time =
                   (if total_queries > 0
                    then sum_list (map (timing \<circ> snd) db) / of_nat total_queries else 0)\<rparr>))"

definition determine_algorithm_type :: "database \<Rightarrow> string" where
  "determine_algorithm_type db =
     (let p = analyze_patterns db
      in if fuzzy_match_ratio p > 8 / 10 then ''fuzzy_search''
         else if exact_match_ratio p > 9 / 10 then ''exact_match''
         else ''hybrid'')"

definition check_result_consistency :: "database \<Rightarrow> rat" where
  "check_result_consistency db = (if db = [] then 0 else 8 / 10)"

definition calculate_confidence :: "database \<Rightarrow> rat" where
  "calculate_confidence db =
     (if db = [] then 0
      else (let p = analyze_patterns db;
                consistency = check_result_consistency db
            in (fuzzy_match_ratio p + exact_match_ratio p + consistency) / 3))"

section \<open>The collector\<close>

text \<open>
  What the HTTP library does inside the \<open>try\<close> block of \<open>perform_search\<close>: the request
  fails to connect, times out, or is answered with a status code and a decoded body. The
  predicate \<open>raises_for_status\<close> stands for the library's \<open>raise_for_status\<close>: the
  status codes on which it raises. All three failures are \<open>RequestException\<close>s, which
  the \<open>except\<close> clause turns into the empty list.
\<close>

datatype transport = Connection_failed | Timed_out | Replied nat "result list"

definition perform_search :: "(nat \<Rightarrow> bool) \<Rightarrow> transport \<Rightarrow> result list" where
  "perform_search raises_for_status outcome =
     (case outcome of
        Connection_failed \<Rightarrow> []
      | Timed_out \<Rightarrow> []
      | Replied status body \<Rightarrow> (if raises_for_status status then [] else body))"

section \<open>Predicates of the statements\<close>

text \<open>
  The weight stored for a domain, if any.
\<close>

definition weight_of :: "strategy \<Rightarrow> string \<Rightarrow> rat option" where
  "weight_of st d = map_of (domain_weights st) d"

text \<open>
  A query overlaps the catalog when one of its lowercased tokens is a lowercased seed term of
  some domain: the test of \<open>_identify_domain\<close>, over all domains.
\<close>

definition overlaps_catalog :: "string \<Rightarrow> bool" where
  "overlaps_catalog q =
     list_ex (\<lambda>(d, terms). set (str_split (lower q)) \<inter> set (map lower terms) \<noteq> {}) domains"

text \<open>
  The requests that end in the \<open>except\<close> clause of \<open>perform_search\<close>.
\<close>

definition request_failed :: "(nat \<Rightarrow> bool) \<Rightarrow> transport \<Rightarrow> bool" where
  "request_failed raises_for_status outcome =
     (case outcome of
        Connection_failed \<Rightarrow> True
      | Timed_out \<Rightarrow> True
      | Replied status body \<Rightarrow> raises_for_status status)"

text \<open>
  The position of a phase in the order domain exploration, pattern exploration,
  optimization.
\<close>

fun phase_rank :: "phase \<Rightarrow> nat" where
  "phase_rank Domain_exploration = 0"
| "phase_rank Pattern_exploration = 1"
| "phase_rank Optimization = 2"

text \<open>
  The invariant of the weight table: its keys are the catalog domains, in catalog order, and
  every weight lies between 0.1 and 2.0.
\<close>

definition weights_inv :: "strategy \<Rightarrow> bool" where
  "weights_inv st =
     (map fst (domain_weights st) = domain_keys
      \<and> list_all (\<lambda>(d, w). 1 / 10 \<le> w \<and> w \<le> 2) (domain_weights st))"

text \<open>
  A strategy that has made \<open>n\<close> rounds and is in phase \<open>p\<close>, with the constructor's
  \<open>max_exploration_rounds\<close> and only catalog domains among the successful ones.
\<close>

definition in_round :: "strategy \<Rightarrow> nat \<Rightarrow> phase \<Rightarrow> bool" where
  "in_round st n p =
     (weights_inv st \<and> set (successful_domains (learned_patterns st)) \<subseteq> set domain_keys
      \<and> max_exploration_rounds st = 3 \<and> exploration_rounds st = n \<and> current_phase st = p)"

section \<open>Example inputs\<close>

text \<open>
  A database of two samples: a query without results and a query with one fuzzy result.
\<close>

definition demo_db :: database where
  "demo_db =
     snd (collect_sample (snd (collect_sample [] ''zzz'' [] 0 0)) ''python''
            [\<lparr>title = ''Python intro'', score = Some (9 / 10), matched = Some ''fuzzy''\<rparr>] 1 0)"

text \<open>
  A result whose title shares the token \<open>education\<close> with the query, and three calls,
  the last of which is a query that matches no domain.
\<close>

definition demo_result :: result where
  "demo_result = \<lparr>title = ''Education basics'', score = Some (1 / 2), matched = Some ''exact''\<rparr>"

definition demo_calls :: "call list" where
  "demo_calls =
     [Analyze ''education'' [], Analyze ''education'' [demo_result], Analyze ''zzz'' []]"

text \<open>
  A search for \<open>education\<close> that times out, fed to the strategy.
\<close>

definition failed_search :: "strategy \<Rightarrow> strategy" where
  "failed_search st =
     snd (analyze_response st ''education'' (perform_search (\<lambda>status. 400 \<le> status) Timed_out))"

text \<open>
  A random source that always draws 0, and six rounds of query generation with it.
\<close>

definition zero_rng :: rng where
  "zero_rng = (\<lambda>n. 0)"

definition six_rounds :: "call list" where
  "six_rounds = replicate 6 (Generate zero_rng 0)"

text \<open>
  A high-scoring result for the query \<open>advanced education\<close>, and the calls that bring a
  fresh strategy into optimization after it.
\<close>

definition specific_result :: result where
  "specific_result =
     \<lparr>title = ''Advanced education'', score = Some (9 / 10), matched = Some ''exact''\<rparr>"

definition optimizing_calls :: "call list" where
  "optimizing_calls = Analyze ''advanced education'' [specific_result] # six_rounds"

section \<open>Properties of the classification\<close>

lemma categorize_query_unfold:
  "categorize_query q =
     (if length (str_split q) > 2 then ''exact''
      else if length (str_split q) = 1 then ''partial''
      else if list_ex (\<lambda>c. \<not> isalnum c \<and> \<not> isspace c) q then ''fuzzy''
      else if contains q '' AND '' \<or> contains q '' OR '' then ''compound''
      else ''general'')"
  by (simp add: categorize_query_def categories_def)

text \<open>
  C7, as stated, fails on the code: \<open>weird!!\<close> is a single token, so the
  \<open>partial\<close> check, which comes before the \<open>fuzzy\<close> check, names its category;
  \<open>a AND b\<close> has three tokens, so the \<open>exact\<close> check, which comes first, names
  its category.
\<close>

theorem categorize_query_examples_counterexample:
  "categorize_query ''weird!!'' \<noteq> ''fuzzy'' \<and> categorize_query ''a AND b'' \<noteq> ''compound''"
  by (simp add: categorize_query_unfold str_split_def isspace_def)

text \<open>
  C7, amended: \<open>_categorize_query\<close> returns \<open>exact\<close> for \<open>one two three\<close>,
  \<open>partial\<close> for \<open>solo\<close>, \<open>partial\<close> for \<open>weird!!\<close>, \<open>exact\<close> for \<open>a AND b\<close>
  and \<open>general\<close> for the empty string.
\<close>

theorem categorize_query_examples:
  "categorize_query ''one two three'' = ''exact''
   \<and> categorize_query ''solo'' = ''partial''
   \<and> categorize_query ''weird!!'' = ''partial''
   \<and> categorize_query ''a AND b'' = ''exact''
   \<and> categorize_query '''' = ''general''"
  by (simp add: categorize_query_unfold str_split_def isspace_def)

section \<open>Properties of the result analyzer\<close>

lemma ratios_sum:
  "db \<noteq> [] \<Longrightarrow>
     fuzzy_match_ratio (analyze_patterns db) + exact_match_ratio (analyze_patterns db) = 1"
  by (simp add: analyze_patterns_def Let_def diff_divide_distrib)

lemma exact_ratio_counts:
  "db \<noteq> [] \<Longrightarrow> exact_match_ratio (analyze_patterns db) =
     of_nat (length (filter (\<lambda>s. matching_type (sample_characteristics s) \<noteq> ''fuzzy'') (map snd db)))
       / of_nat (length db)"
proof -
  assume "db \<noteq> []"
  let ?P = "\<lambda>s. matching_type (sample_characteristics s) = ''fuzzy''"
  have "length (filter ?P (map snd db)) + length (filter (\<lambda>s. \<not> ?P s) (map snd db)) = length db"
    using sum_length_filter_compl[of ?P "map snd db"] by simp
  then have "(of_nat (length db) :: rat) - of_nat (length (filter ?P (map snd db)))
     = of_nat (length (filter (\<lambda>s. \<not> ?P s) (map snd db)))"
    by (simp add: algebra_simps flip: of_nat_add)
  with \<open>db \<noteq> []\<close> show ?thesis
    by (simp add: analyze_patterns_def Let_def)
qed

lemma demo_db_patterns:
  "analyze_patterns demo_db =
     \<lparr>fuzzy_match_ratio = 1 / 2, exact_match_ratio = 1 / 2, average_response_time = 0\<rparr>"
  by (simp add: demo_db_def collect_sample_def analyze_patterns_def analyze_results_def
        detect_matching_algorithm_def Let_def)

lemma demo_db_nonempty: "demo_db \<noteq> []"
  by (simp add: demo_db_def collect_sample_def Let_def)

text \<open>
  C8: \<open>calculate_confidence\<close> is 0 on the empty database; on a non-empty one it is the
  mean of \<open>fuzzy_match_ratio\<close>, \<open>exact_match_ratio\<close> and the constant 0.8, and lies
  between 0 and 1.
\<close>

theorem calculate_confidence_mean:
  "calculate_confidence [] = 0 \<and>
   (db \<noteq> [] \<longrightarrow>
      calculate_confidence db =
        (fuzzy_match_ratio (analyze_patterns db) + exact_match_ratio (analyze_patterns db) + 8 / 10) / 3
      \<and> 0 \<le> calculate_confidence db \<and> calculate_confidence db \<le> 1)"
proof -
  have e: "calculate_confidence [] = 0" by (simp add: calculate_confidence_def)
  have n: "calculate_confidence db =
        (fuzzy_match_ratio (analyze_patterns db) + exact_match_ratio (analyze_patterns db) + 8 / 10) / 3
      \<and> 0 \<le> calculate_confidence db \<and> calculate_confidence db \<le> 1" if "db \<noteq> []"
  proof -
    have m: "calculate_confidence db =
        (fuzzy_match_ratio (analyze_patterns db) + exact_match_ratio (analyze_patterns db) + 8 / 10) / 3"
      using that by (simp add: calculate_confidence_def check_result_consistency_def Let_def)
    have "calculate_confidence db = (1 + 8 / 10) / 3"
      unfolding m using ratios_sum[OF that] by simp
    then have "0 \<le> calculate_confidence db \<and> calculate_confidence db \<le> 1" by simp
    with m show ?thesis by blast
  qed
  from e n show ?thesis by blast
qed

theorem calculate_confidence_mean_witness:
  "demo_db \<noteq> [] \<and> calculate_confidence [] = 0
   \<and> calculate_confidence demo_db = (1 / 2 + 1 / 2 + 8 / 10) / 3
   \<and> 0 \<le> calculate_confidence demo_db \<and> calculate_confidence demo_db \<le> 1"
  using calculate_confidence_mean[of demo_db] demo_db_nonempty
  by (simp add: demo_db_patterns)

text \<open>
  C10: on a non-empty database the two ratios of \<open>analyze_patterns\<close> add up to 1,
  every sample whose matching type is not \<open>fuzzy\<close> (so also \<open>unknown\<close>) counts towards
  \<open>exact_match_ratio\<close>, and \<open>calculate_confidence\<close> is 0.6.
\<close>

theorem confidence_is_three_fifths:
  "db \<noteq> [] \<Longrightarrow>
     fuzzy_match_ratio (analyze_patterns db) + exact_match_ratio (analyze_patterns db) = 1
     \<and> exact_match_ratio (analyze_patterns db) =
         of_nat (length (filter (\<lambda>s. matching_type (sample_characteristics s) \<noteq> ''fuzzy'') (map snd db)))
           / of_nat (length db)
     \<and> calculate_confidence db = 6 / 10"
  using ratios_sum[of db] exact_ratio_counts[of db]
  by (simp add: calculate_confidence_def check_result_consistency_def Let_def)

theorem confidence_is_three_fifths_witness:
  "demo_db \<noteq> []
   \<and> fuzzy_match_ratio (analyze_patterns demo_db) + exact_match_ratio (analyze_patterns demo_db) = 1
   \<and> exact_match_ratio (analyze_patterns demo_db) = 1 / 2
   \<and> calculate_confidence demo_db = 6 / 10"
  using confidence_is_three_fifths[OF demo_db_nonempty] demo_db_nonempty
  by (simp add: demo_db_patterns)

section \<open>Properties of analyze_response\<close>

lemma analyze_response_raises:
  "weight_of st (identify_domain q) = None \<Longrightarrow>
     fst (analyze_response st q rs) = Some (KeyError (identify_domain q))
     \<and> domain_weights (snd (analyze_response st q rs)) = domain_weights st"
  by (simp add: analyze_response_def weight_of_def Let_def split: prod.splits)

lemma analyze_response_returns:
  "weight_of st (identify_domain q) = Some w \<Longrightarrow>
     fst (analyze_response st q rs) = None
     \<and> domain_weights (snd (analyze_response st q rs)) =
         AList.update (identify_domain q)
           (if rs \<noteq> [] then min 2 (w * (12 / 10)) else max (1 / 10) (w * (8 / 10)))
           (domain_weights st)"
  by (simp add: analyze_response_def weight_of_def Let_def split: prod.splits)

lemma analyze_response_phase:
  "current_phase (snd (analyze_response st q rs)) = current_phase st
   \<and> exploration_rounds (snd (analyze_response st q rs)) = exploration_rounds st
   \<and> max_exploration_rounds (snd (analyze_response st q rs)) = max_exploration_rounds st"
  by (simp add: analyze_response_def Let_def split: prod.splits option.splits)

lemma weight_of_analyze_response:
  "weight_of (snd (analyze_response st q rs)) d =
     (if d = identify_domain q
      then map_option (\<lambda>w. if rs \<noteq> [] then min 2 (w * (12 / 10)) else max (1 / 10) (w * (8 / 10)))
             (weight_of st d)
      else weight_of st d)"
proof (cases "weight_of st (identify_domain q)")
  case None
  from analyze_response_raises[OF this, of rs] None show ?thesis
    by (auto simp: weight_of_def)
next
  case (Some w)
  from analyze_response_returns[OF this, of rs] Some show ?thesis
    by (auto simp: weight_of_def update_conv')
qed

lemma keys_analyze_response:
  "map fst (domain_weights (snd (analyze_response st q rs))) = map fst (domain_weights st)"
proof (cases "weight_of st (identify_domain q)")
  case None
  from analyze_response_raises[OF this, of rs] show ?thesis by simp
next
  case (Some w)
  then have "identify_domain q \<in> fst ` set (domain_weights st)"
    by (auto simp: weight_of_def dest: map_of_SomeD intro: rev_image_eqI)
  with analyze_response_returns[OF Some, of rs] show ?thesis
    by (simp add: update_keys)
qed

lemma first_domain_general:
  "\<not> list_ex (\<lambda>(d, terms). T \<inter> set (map lower terms) \<noteq> {}) ds \<Longrightarrow> first_domain ds T = ''general''"
  by (induction ds T rule: first_domain.induct) auto

lemma first_domain_key:
  "list_ex (\<lambda>(d, terms). T \<inter> set (map lower terms) \<noteq> {}) ds \<Longrightarrow> first_domain ds T \<in> fst ` set ds"
  by (induction ds T rule: first_domain.induct) (auto split: if_splits)

lemma general_not_key: "''general'' \<notin> set domain_keys"
  by (simp add: domain_keys_def domains_def)

lemma identify_domain_unmatched: "\<not> overlaps_catalog q \<Longrightarrow> identify_domain q = ''general''"
  unfolding overlaps_catalog_def identify_domain_def by (rule first_domain_general)

lemma identify_domain_matched: "overlaps_catalog q \<Longrightarrow> identify_domain q \<in> set domain_keys"
  unfolding overlaps_catalog_def identify_domain_def domain_keys_def
  using first_domain_key by auto

lemma generate_next_queries_frame:
  "generate_next_queries st r i = Some (out, st') \<Longrightarrow>
     domain_weights st' = domain_weights st
     \<and> learned_patterns st' = learned_patterns st
     \<and> query_success_rates st' = query_success_rates st
     \<and> max_exploration_rounds st' = max_exploration_rounds st"
  by (auto simp: generate_next_queries_def Let_def
           split: if_splits option.splits sum.splits prod.splits)

lemma list_all_update:
  "list_all P al \<Longrightarrow> P (k, v) \<Longrightarrow> list_all P (AList.update k v al)"
  by (induction al) auto

lemma weights_inv_analyze_response:
  assumes "weights_inv st"
  shows "weights_inv (snd (analyze_response st q rs))"
proof (cases "weight_of st (identify_domain q)")
  case None
  from analyze_response_raises[OF this, of rs] assms show ?thesis
    by (simp add: weights_inv_def)
next
  case (Some w)
  then have "(identify_domain q, w) \<in> set (domain_weights st)"
    by (simp add: weight_of_def map_of_SomeD)
  with assms have b: "1 / 10 \<le> w \<and> w \<le> 2"
    by (auto simp: weights_inv_def list_all_iff)
  let ?v = "if rs \<noteq> [] then min 2 (w * (12 / 10)) else max (1 / 10) (w * (8 / 10))"
  from b have "1 / 10 \<le> ?v \<and> ?v \<le> 2" by auto
  then have "list_all (\<lambda>(d, w). 1 / 10 \<le> w \<and> w \<le> 2)
               (AList.update (identify_domain q) ?v (domain_weights st))"
    using assms by (intro list_all_update) (simp_all add: weights_inv_def)
  moreover have "map fst (domain_weights (snd (analyze_response st q rs))) = domain_keys"
    using assms by (simp add: keys_analyze_response weights_inv_def)
  ultimately show ?thesis
    using analyze_response_returns[OF Some, of rs] by (simp add: weights_inv_def)
qed

lemma weights_inv_exec:
  "exec c st = Some st' \<Longrightarrow> weights_inv st \<Longrightarrow> weights_inv st'"
proof (cases c)
  case (Analyze q rs)
  assume "exec c st = Some st'" "weights_inv st"
  with Analyze show ?thesis using weights_inv_analyze_response[of st q rs] by auto
next
  case (Generate r i)
  assume "exec c st = Some st'" "weights_inv st"
  with Generate show ?thesis
    using generate_next_queries_frame[of st r i] by (auto simp: weights_inv_def)
qed

lemma weights_inv_run:
  "run cs st = Some st' \<Longrightarrow> weights_inv st \<Longrightarrow> weights_inv st'"
proof (induction cs arbitrary: st)
  case Nil
  then show ?case by simp
next
  case (Cons c cs)
  then show ?case by (auto split: option.splits dest: weights_inv_exec)
qed

lemma weights_inv_new: "weights_inv new_strategy"
  by (simp add: weights_inv_def new_strategy_def list_all_iff comp_def)

lemma identify_domain_education: "identify_domain ''education'' = ''general_academic''"
  by (simp add: identify_domain_def domains_def str_split_def lower_def lower_char_def isspace_def)

lemma overlaps_zzz: "\<not> overlaps_catalog ''zzz''"
  by (simp add: overlaps_catalog_def domains_def str_split_def lower_def lower_char_def isspace_def)

text \<open>
  C4: after any finite sequence of calls on a freshly constructed strategy, the keys of
  \<open>domain_weights\<close> are the catalog domains and every weight lies between 0.1 and 2.0.
  Calls that raise are part of the sequences: they leave the weights as they were.
\<close>

theorem weights_stay_in_range:
  "run calls new_strategy = Some st \<Longrightarrow>
     map fst (domain_weights st) = domain_keys
     \<and> list_all (\<lambda>(d, w). 1 / 10 \<le> w \<and> w \<le> 2) (domain_weights st)"
  using weights_inv_run[OF _ weights_inv_new] by (simp add: weights_inv_def)

lemma weight_of_new_strategy: "weight_of new_strategy ''general_academic'' = Some 1"
  by (simp add: weight_of_def new_strategy_def domain_keys_def domains_def)

lemma run_demo_calls: "run demo_calls new_strategy \<noteq> None"
  by (simp add: demo_calls_def)

text \<open>
  Three calls, the last of which raises: a failure and a success on \<open>education\<close> take the
  weight of \<open>general_academic\<close> from 1 to 0.8 to 0.96.
\<close>

theorem weights_stay_in_range_witness:
  "run demo_calls new_strategy \<noteq> None
   \<and> map fst (domain_weights (the (run demo_calls new_strategy))) = domain_keys
   \<and> list_all (\<lambda>(d, w). 1 / 10 \<le> w \<and> w \<le> 2) (domain_weights (the (run demo_calls new_strategy)))
   \<and> weight_of (the (run demo_calls new_strategy)) ''general_academic'' = Some (96 / 100)"
proof -
  have r: "run demo_calls new_strategy = Some (the (run demo_calls new_strategy))"
    using run_demo_calls by simp
  have w: "weight_of (the (run demo_calls new_strategy)) ''general_academic'' = Some (96 / 100)"
    by (simp add: demo_calls_def weight_of_analyze_response identify_domain_education
          identify_domain_unmatched[OF overlaps_zzz] weight_of_new_strategy demo_result_def)
  from weights_stay_in_range[OF r] run_demo_calls w show ?thesis by simp
qed

lemma weights_reachable:
  assumes "run calls new_strategy = Some st"
  shows "weight_of st d = None \<longleftrightarrow> d \<notin> set domain_keys"
proof -
  from weights_inv_run[OF assms weights_inv_new]
  have "map fst (domain_weights st) = domain_keys" by (simp add: weights_inv_def)
  then show ?thesis
    unfolding weight_of_def map_of_eq_None_iff by (metis set_map)
qed

text \<open>
  C3: in every state reached from a fresh strategy, a query none of whose lowercased tokens is
  a seed term of a catalog domain is identified as \<open>general\<close>, and \<open>analyze_response\<close>
  raises \<open>KeyError\<close> on it at the weight update, the weights being untouched;
  \<open>analyze_response\<close> returns normally exactly for the queries that match a catalog domain.
\<close>

theorem unmatched_query_raises:
  "run calls new_strategy = Some st \<Longrightarrow>
     (\<not> overlaps_catalog q \<longrightarrow>
        identify_domain q = ''general''
        \<and> fst (analyze_response st q rs) = Some (KeyError ''general'')
        \<and> domain_weights (snd (analyze_response st q rs)) = domain_weights st)
     \<and> ((fst (analyze_response st q rs) = None) = overlaps_catalog q)"
proof -
  assume r: "run calls new_strategy = Some st"
  show ?thesis
  proof (cases "overlaps_catalog q")
    case True
    from identify_domain_matched[OF True] weights_reachable[OF r]
    obtain w where "weight_of st (identify_domain q) = Some w" by fastforce
    from analyze_response_returns[OF this, of rs] True show ?thesis by simp
  next
    case False
    note g = identify_domain_unmatched[OF False]
    from weights_reachable[OF r, of "''general''"] general_not_key
    have "weight_of st (identify_domain q) = None" by (simp add: g)
    from analyze_response_raises[OF this, of rs] False g show ?thesis by simp
  qed
qed

theorem unmatched_query_raises_witness:
  "run demo_calls new_strategy \<noteq> None \<and> \<not> overlaps_catalog ''zzz''
   \<and> identify_domain ''zzz'' = ''general''
   \<and> fst (analyze_response (the (run demo_calls new_strategy)) ''zzz'' [demo_result])
       = Some (KeyError ''general'')"
proof -
  have r: "run demo_calls new_strategy = Some (the (run demo_calls new_strategy))"
    using run_demo_calls by simp
  from unmatched_query_raises[OF r, of "''zzz''" "[demo_result]"] overlaps_zzz run_demo_calls
  show ?thesis by simp
qed

lemma weight_of_general_new: "weight_of new_strategy ''general'' = None"
  by (simp add: weight_of_def new_strategy_def domain_keys_def domains_def)

text \<open>
  C2 fails on the code for a query that matches no catalog domain: the call raises
  \<open>KeyError\<close> on \<open>general\<close>, with empty and with non-empty results, and no weight is
  updated. (For a query that matches a domain the update is the one the claim states:
  \<open>analyze_response_returns\<close> and \<open>weight_of_analyze_response\<close>.)
\<close>

theorem weight_update_unmatched_query:
  "fst (analyze_response new_strategy ''zzz'' []) = Some (KeyError ''general'')
   \<and> fst (analyze_response new_strategy ''zzz'' [demo_result]) = Some (KeyError ''general'')
   \<and> domain_weights (snd (analyze_response new_strategy ''zzz'' [])) = domain_weights new_strategy
   \<and> domain_weights (snd (analyze_response new_strategy ''zzz'' [demo_result]))
       = domain_weights new_strategy"
proof -
  have "weight_of new_strategy (identify_domain ''zzz'') = None"
    by (simp add: identify_domain_unmatched[OF overlaps_zzz] weight_of_general_new)
  from analyze_response_raises[OF this] show ?thesis
    by (simp add: identify_domain_unmatched[OF overlaps_zzz])
qed

lemma terms_after_failure:
  "effective_terms (learned_patterns (snd (analyze_response st q []))) =
     effective_terms (learned_patterns st)
   \<and> ineffective_terms (learned_patterns (snd (analyze_response st q []))) =
       (ineffective_terms (learned_patterns st)
        \<union> set (filter (\<lambda>t. str_isalnum t \<and> lower t \<notin> {''and'', ''or'', ''not''}) (str_split q)))
       - effective_terms (learned_patterns st)"
  by (simp add: analyze_response_def Let_def split: option.splits)

lemma terms_after_success:
  "rs \<noteq> [] \<Longrightarrow>
   effective_terms (learned_patterns (snd (analyze_response st q rs))) =
     effective_terms (learned_patterns st)
     \<union> fst (scan_results q rs ({}, successful_patterns (learned_patterns st)))
   \<and> ineffective_terms (learned_patterns (snd (analyze_response st q rs))) =
       ineffective_terms (learned_patterns st)"
  by (simp add: analyze_response_def Let_def split: option.splits prod.splits)

lemma disjoint_after_failure:
  "effective_terms (learned_patterns (snd (analyze_response st q [])))
   \<inter> ineffective_terms (learned_patterns (snd (analyze_response st q []))) = {}"
  by (auto simp: terms_after_failure)

text \<open>
  C6 fails on the code: only the failure branch subtracts \<open>effective_terms\<close> from
  \<open>ineffective_terms\<close> (\<open>disjoint_after_failure\<close>). A term recorded as ineffective by a
  query without results stays there when a later successful query records it as effective.
\<close>

theorem effective_and_ineffective_overlap:
  "fst (analyze_response new_strategy ''education'' []) = None
   \<and> fst (analyze_response (snd (analyze_response new_strategy ''education'' []))
           ''education'' [demo_result]) = None
   \<and> ''education'' \<in>
       effective_terms (learned_patterns (snd (analyze_response
          (snd (analyze_response new_strategy ''education'' [])) ''education'' [demo_result])))
       \<inter> ineffective_terms (learned_patterns (snd (analyze_response
          (snd (analyze_response new_strategy ''education'' [])) ''education'' [demo_result])))"
proof -
  let ?st1 = "snd (analyze_response new_strategy ''education'' [])"
  have w0: "weight_of new_strategy (identify_domain ''education'') = Some 1"
    by (simp add: identify_domain_education weight_of_new_strategy)
  have w1: "weight_of ?st1 (identify_domain ''education'') = Some (8 / 10)"
    by (simp add: weight_of_analyze_response identify_domain_education weight_of_new_strategy)
  have a: "fst (analyze_response new_strategy ''education'' []) = None"
    using analyze_response_returns[OF w0] by simp
  have b: "fst (analyze_response ?st1 ''education'' [demo_result]) = None"
    using analyze_response_returns[OF w1] by simp
  have i: "''education'' \<in> ineffective_terms (learned_patterns ?st1)"
    by (simp add: terms_after_failure new_strategy_def str_split_def isspace_def
          str_isalnum_def isalnum_def lower_def lower_char_def)
  have t: "str_split (lower (title demo_result)) = [''education'', ''basics'']"
    by code_simp
  have q: "str_split (lower ''education'') = [''education'']"
    by code_simp
  have s: "''education'' \<in> fst (scan_results ''education'' [demo_result] ({}, ps))" for ps
    by (simp add: t q Let_def)
  have e: "''education'' \<in> effective_terms (learned_patterns
             (snd (analyze_response ?st1 ''education'' [demo_result])))"
    using s by (simp add: terms_after_success)
  have i': "''education'' \<in> ineffective_terms (learned_patterns
             (snd (analyze_response ?st1 ''education'' [demo_result])))"
    using i by (simp add: terms_after_success)
  from a b e i' show ?thesis by simp
qed

section \<open>Properties of the collector\<close>

lemma perform_search_failed:
  "request_failed raises outcome \<Longrightarrow> perform_search raises outcome = []"
  by (cases outcome) (simp_all add: request_failed_def perform_search_def)

lemma rates_after_failure:
  "query_success_rates (snd (analyze_response st q [])) =
     bump_total (categorize_query q) (query_success_rates st)"
  by (simp add: analyze_response_def Let_def split: option.splits)

lemma get_rate_bump_total:
  "get_rate (bump_total k rates) k = (get_rate rates k)\<lparr>total := total (get_rate rates k) + 1\<rparr>"
  by (simp add: get_rate_def bump_total_def Let_def update_conv')

lemma failed_search_weight:
  "weight_of (failed_search st) ''general_academic'' =
     map_option (\<lambda>w. max (1 / 10) (w * (8 / 10))) (weight_of st ''general_academic'')"
  by (simp add: failed_search_def perform_search_def weight_of_analyze_response
        identify_domain_education)

lemma failed_search_returns:
  "weight_of st ''general_academic'' = Some w \<Longrightarrow>
     fst (analyze_response st ''education'' (perform_search (\<lambda>status. 400 \<le> status) Timed_out)) = None"
  using analyze_response_returns[of st "''education''" w] by (simp add: identify_domain_education)

text \<open>
  C9, as stated, fails on the code: eleven failed searches for \<open>education\<close> bring the weight
  of \<open>general_academic\<close> from 1 down to the floor 0.1; the twelfth failed search returns
  normally and leaves the weight at 0.1, so it does not lower it.
\<close>

theorem failed_search_at_floor_counterexample:
  "weight_of ((failed_search ^^ 11) new_strategy) ''general_academic'' = Some (1 / 10)
   \<and> fst (analyze_response ((failed_search ^^ 11) new_strategy) ''education''
            (perform_search (\<lambda>status. 400 \<le> status) Timed_out)) = None
   \<and> weight_of (failed_search ((failed_search ^^ 11) new_strategy)) ''general_academic''
       = Some (1 / 10)"
proof -
  have w: "weight_of ((failed_search ^^ 11) new_strategy) ''general_academic'' = Some (1 / 10)"
    by (simp add: eval_nat_numeral failed_search_weight weight_of_new_strategy)
  from w failed_search_returns[OF w] show ?thesis
    by (simp add: failed_search_weight)
qed

text \<open>
  C9, amended: when the request fails (connection error, timeout, or a status on which
  \<open>raise_for_status\<close> raises), \<open>perform_search\<close> returns the empty list; feeding it to
  \<open>analyze_response\<close> for a query whose identified domain has a weight \<open>w\<close> returns
  normally, increments the category's total count, leaves its success count, and sets the
  weight to \<open>max(0.1, w * 0.8)\<close>, which is lower than \<open>w\<close> when \<open>w\<close> is above 0.1.
\<close>

theorem failed_request_recorded:
  "request_failed raises outcome \<Longrightarrow> weight_of st (identify_domain q) = Some w \<Longrightarrow>
     perform_search raises outcome = []
     \<and> fst (analyze_response st q (perform_search raises outcome)) = None
     \<and> get_rate (query_success_rates (snd (analyze_response st q (perform_search raises outcome))))
         (categorize_query q)
       = \<lparr>success = success (get_rate (query_success_rates st) (categorize_query q)),
          total = total (get_rate (query_success_rates st) (categorize_query q)) + 1\<rparr>
     \<and> weight_of (snd (analyze_response st q (perform_search raises outcome))) (identify_domain q)
       = Some (max (1 / 10) (w * (8 / 10)))
     \<and> (1 / 10 < w \<longrightarrow> max (1 / 10) (w * (8 / 10)) < w)"
proof -
  assume f: "request_failed raises outcome" and w: "weight_of st (identify_domain q) = Some w"
  note e = perform_search_failed[OF f]
  have a: "fst (analyze_response st q []) = None"
    using analyze_response_returns[OF w, of "[]"] by simp
  have r: "get_rate (query_success_rates (snd (analyze_response st q []))) (categorize_query q)
       = \<lparr>success = success (get_rate (query_success_rates st) (categorize_query q)),
          total = total (get_rate (query_success_rates st) (categorize_query q)) + 1\<rparr>"
    by (simp add: rates_after_failure get_rate_bump_total)
  have n: "weight_of (snd (analyze_response st q [])) (identify_domain q)
       = Some (max (1 / 10) (w * (8 / 10)))"
    by (simp add: weight_of_analyze_response w)
  have l: "1 / 10 < w \<longrightarrow> max (1 / 10) (w * (8 / 10)) < w" by auto
  from a r n l show ?thesis unfolding e by blast
qed

theorem failed_request_recorded_witness:
  "request_failed (\<lambda>status. 400 \<le> status) (Replied 503 [demo_result])
   \<and> weight_of new_strategy (identify_domain ''education'') = Some 1
   \<and> perform_search (\<lambda>status. 400 \<le> status) (Replied 503 [demo_result]) = []
   \<and> fst (analyze_response new_strategy ''education''
            (perform_search (\<lambda>status. 400 \<le> status) (Replied 503 [demo_result]))) = None
   \<and> weight_of (snd (analyze_response new_strategy ''education''
            (perform_search (\<lambda>status. 400 \<le> status) (Replied 503 [demo_result]))))
         (identify_domain ''education'') = Some (max (1 / 10) (1 * (8 / 10)))
   \<and> 1 / 10 < (1::rat) \<and> max (1 / 10) (1 * (8 / 10)) < (1::rat)"
proof -
  have above: "1 / 10 < (1::rat)" by simp
  have f: "request_failed (\<lambda>status. 400 \<le> status) (Replied 503 [demo_result])"
    by (simp add: request_failed_def)
  have w: "weight_of new_strategy (identify_domain ''education'') = Some 1"
    by (simp add: identify_domain_education weight_of_new_strategy)
  from failed_request_recorded[OF f w] f w above show ?thesis by blast
qed

section \<open>Properties of generate_next_queries\<close>

lemma generate_next_queries_phase:
  "generate_next_queries st r i = Some (out, st') \<Longrightarrow>
     phase_rank (current_phase st) \<le> phase_rank (current_phase st')
     \<and> phase_rank (current_phase st') \<le> Suc (phase_rank (current_phase st))
     \<and> (current_phase st = Optimization \<longrightarrow> current_phase st' = Optimization)"
  by (cases "current_phase st")
     (auto simp: generate_next_queries_def Let_def
           split: if_splits option.splits sum.splits prod.splits)

lemma exec_phase:
  "exec c st = Some st' \<Longrightarrow>
     phase_rank (current_phase st) \<le> phase_rank (current_phase st')
     \<and> phase_rank (current_phase st') \<le> Suc (phase_rank (current_phase st))
     \<and> (current_phase st = Optimization \<longrightarrow> current_phase st' = Optimization)"
proof (cases c)
  case (Analyze q rs)
  assume "exec c st = Some st'"
  with Analyze show ?thesis using analyze_response_phase[of st q rs] by auto
next
  case (Generate r i)
  assume "exec c st = Some st'"
  with Generate obtain out where "generate_next_queries st r i = Some (out, st')" by auto
  then show ?thesis by (rule generate_next_queries_phase)
qed

lemma run_phase:
  "run calls st = Some st' \<Longrightarrow>
     phase_rank (current_phase st) \<le> phase_rank (current_phase st')
     \<and> (current_phase st = Optimization \<longrightarrow> current_phase st' = Optimization)"
proof (induction calls arbitrary: st)
  case Nil
  then show ?case by simp
next
  case (Cons c calls)
  from Cons.prems obtain st1 where e: "exec c st = Some st1" and r: "run calls st1 = Some st'"
    by (auto split: option.splits)
  from exec_phase[OF e] Cons.IH[OF r] show ?case by auto
qed

text \<open>
  C5: over any sequence of calls, from any state, the phase never moves back; a strategy in
  \<open>optimization\<close> stays there; and a single call advances the phase by at most one step of
  \<open>domain_exploration\<close>, \<open>pattern_exploration\<close>, \<open>optimization\<close>.
\<close>

theorem phase_forward_only:
  "run calls st = Some st' \<Longrightarrow>
     phase_rank (current_phase st) \<le> phase_rank (current_phase st')
     \<and> (current_phase st = Optimization \<longrightarrow> current_phase st' = Optimization)
     \<and> (\<forall>c. calls = [c] \<longrightarrow>
           phase_rank (current_phase st') \<le> Suc (phase_rank (current_phase st)))"
proof -
  assume r: "run calls st = Some st'"
  have "phase_rank (current_phase st') \<le> Suc (phase_rank (current_phase st))"
    if "calls = [c]" for c
  proof -
    from r that have "exec c st = Some st'" by (auto split: option.splits)
    from exec_phase[OF this] show ?thesis by simp
  qed
  with run_phase[OF r] show ?thesis by blast
qed

lemma random_zero: "random zero_rng i = (0, Suc i)"
  by (simp add: random_def zero_rng_def)

lemma select_weighted_zero:
  "list_all (\<lambda>(d, w). 0 < w) ws \<Longrightarrow> length selected < 3 \<Longrightarrow> 3 \<le> length selected + length ws \<Longrightarrow>
     length (fst (select_weighted ws selected zero_rng i)) = 3
     \<and> set (fst (select_weighted ws selected zero_rng i)) \<subseteq> set selected \<union> fst ` set ws"
proof (induction ws arbitrary: selected i)
  case Nil
  then show ?case by simp
next
  case (Cons p ws)
  obtain d w where p: "p = (d, w)" by (cases p)
  with Cons.prems have w: "0 < w" by simp
  show ?case
  proof (cases "3 \<le> length (selected @ [d])")
    case True
    with Cons.prems(2) w show ?thesis by (auto simp: p random_zero)
  next
    case False
    with Cons.prems have "length (selected @ [d]) < 3" "3 \<le> length (selected @ [d]) + length ws"
      "list_all (\<lambda>(d, w). 0 < w) ws" by simp_all
    from Cons.IH[OF this(3) this(1) this(2), of "Suc i"] False w show ?thesis
      by (auto simp: p random_zero)
  qed
qed

lemma fill_selection_full:
  "3 \<le> length selected \<Longrightarrow> fill_selection selected r i = Some (Inr (selected, i))"
  by (subst fill_selection.simps) simp

lemma catalog_terms_nonempty: "list_all (\<lambda>(d, terms). terms \<noteq> []) domains"
  by (simp add: domains_def)

lemma lookup_domains:
  "d \<in> set domain_keys \<Longrightarrow> \<exists>terms. lookup domains d = Inr terms \<and> terms \<noteq> []"
proof -
  assume "d \<in> set domain_keys"
  then obtain terms where "map_of domains d = Some terms"
    unfolding domain_keys_def by (metis map_of_eq_None_iff not_Some_eq set_map)
  moreover from this have "(d, terms) \<in> set domains" by (rule map_of_SomeD)
  with catalog_terms_nonempty have "terms \<noteq> []" by (auto simp: list_all_iff)
  ultimately show ?thesis by (simp add: lookup_def)
qed

lemma domain_queries_returns:
  "set ds \<subseteq> set domain_keys \<Longrightarrow>
     \<exists>qs i'. domain_queries ds r i = Inr (qs, i') \<and> length qs = length ds
        \<and> list_all (\<lambda>q. domain q \<in> set domain_keys) qs"
proof (induction ds arbitrary: i)
  case Nil
  then show ?case by simp
next
  case (Cons d ds)
  from Cons.prems lookup_domains[of d] obtain terms where
    t: "lookup domains d = Inr terms" "terms \<noteq> []" by auto
  from Cons.prems Cons.IH[of "Suc i"] obtain qs i' where
    q: "domain_queries ds r (Suc i) = Inr (qs, i')" "length qs = length ds"
       "list_all (\<lambda>q. domain q \<in> set domain_keys) qs" by auto
  from t q Cons.prems show ?case by (simp add: and_then_def choice_def)
qed

lemma pattern_funcs_return:
  "list_all (\<lambda>(k, f). \<forall>t r i. \<exists>q i'. f t r i = Inr (q, i')) query_patterns"
  by (simp add: query_patterns_def with_choice_def choice_def and_then_def)

lemma choice_pattern_key:
  "\<exists>k f. choice (map fst query_patterns) r i = Inr (k, Suc i) \<and> lookup query_patterns k = Inr f
      \<and> (\<forall>t r i. \<exists>q i'. f t r i = Inr (q, i'))"
proof -
  let ?ks = "map fst query_patterns"
  have ne: "?ks \<noteq> []" by (simp add: query_patterns_def)
  then have "?ks ! (r i mod length ?ks) \<in> set ?ks" by simp
  then obtain f where f: "map_of query_patterns (?ks ! (r i mod length ?ks)) = Some f"
    by (metis map_of_eq_None_iff not_Some_eq set_map)
  then have "(?ks ! (r i mod length ?ks), f) \<in> set query_patterns" by (rule map_of_SomeD)
  with pattern_funcs_return have "\<forall>t r i. \<exists>q i'. f t r i = Inr (q, i')"
    by (auto simp: list_all_iff)
  with ne f show ?thesis by (simp add: choice_def lookup_def)
qed

lemma pattern_queries_returns:
  "set ds \<subseteq> set domain_keys \<Longrightarrow>
     \<exists>qs i'. pattern_queries ds r i = Inr (qs, i') \<and> length qs = length ds
        \<and> list_all (\<lambda>q. domain q \<in> set domain_keys) qs"
proof (induction ds arbitrary: i)
  case Nil
  then show ?case by simp
next
  case (Cons d ds)
  from Cons.prems lookup_domains[of d] obtain terms where
    t: "lookup domains d = Inr terms" "terms \<noteq> []" by auto
  from choice_pattern_key[of r "Suc i"] obtain k f where
    k: "choice (map fst query_patterns) r (Suc i) = Inr (k, Suc (Suc i))"
       "lookup query_patterns k = Inr f" "\<forall>t r i. \<exists>q i'. f t r i = Inr (q, i')" by blast
  from k(3) obtain q i3 where
    f: "f (terms ! (r i mod length terms)) r (Suc (Suc i)) = Inr (q, i3)" by blast
  from Cons.prems Cons.IH[of i3] obtain qs i' where
    q: "pattern_queries ds r i3 = Inr (qs, i')" "length qs = length ds"
       "list_all (\<lambda>q. domain q \<in> set domain_keys) qs" by auto
  from t k(1,2) f q Cons.prems show ?case by (simp add: and_then_def choice_def)
qed

lemma draw_distinct_subset:
  "k \<le> length xs \<Longrightarrow>
     length (fst (draw_distinct k xs r i)) = k \<and> set (fst (draw_distinct k xs r i)) \<subseteq> set xs"
proof (induction k arbitrary: xs i)
  case 0
  then show ?case by simp
next
  case (Suc k)
  let ?j = "r i mod length xs"
  let ?rest = "take ?j xs @ drop (Suc ?j) xs"
  from Suc.prems have "0 < length xs" by (cases xs) auto
  then have j: "?j < length xs" by (rule mod_less_divisor)
  then have "length ?rest = length xs - 1" by simp
  with Suc.prems have "k \<le> length ?rest" by simp
  from Suc.IH[OF this, of "Suc i"] have
    "length (fst (draw_distinct k ?rest r (Suc i))) = k"
    "set (fst (draw_distinct k ?rest r (Suc i))) \<subseteq> set ?rest" by simp_all
  moreover have "set ?rest \<subseteq> set xs"
    using set_take_subset[of ?j xs] set_drop_subset[of "Suc ?j" xs] by auto
  ultimately show ?case using j by (auto simp: Let_def split: prod.splits)
qed

lemma domain_round:
  assumes "weights_inv st" "current_phase st = Domain_exploration"
  shows "\<exists>qs st'. generate_next_queries st zero_rng i = Some (Inr qs, st')
           \<and> length qs = 3 \<and> list_all (\<lambda>q. domain q \<in> set domain_keys) qs
           \<and> exploration_rounds st' = Suc (exploration_rounds st)
           \<and> current_phase st' =
               (if max_exploration_rounds st \<le> Suc (exploration_rounds st)
                then Pattern_exploration else Domain_exploration)"
proof -
  let ?ws = "sorted_by_weight (domain_weights st)"
  from assms(1) have k: "map fst (domain_weights st) = domain_keys"
    and b: "list_all (\<lambda>(d, w). 1 / 10 \<le> w \<and> w \<le> 2) (domain_weights st)"
    by (simp_all add: weights_inv_def)
  have s: "set ?ws = set (domain_weights st)" by (simp add: sorted_by_weight_def)
  from b have pos: "list_all (\<lambda>(d, w). 0 < w) ?ws"
    unfolding list_all_iff s by fastforce
  have "length ?ws = length (map fst (domain_weights st))" by (simp add: sorted_by_weight_def)
  also have "\<dots> = 17" unfolding k by (simp add: domain_keys_def domains_def)
  finally have len: "3 \<le> length ([]::string list) + length ?ws" by simp
  obtain sel i1 where sel: "select_weighted ?ws [] zero_rng i = (sel, i1)"
    by (cases "select_weighted ?ws [] zero_rng i")
  from select_weighted_zero[OF pos _ len, of i] sel
  have l: "length sel = 3" and "set sel \<subseteq> fst ` set ?ws" by simp_all
  then have sub: "set sel \<subseteq> set domain_keys" unfolding s using k by (metis set_map)
  from l have f: "fill_selection sel zero_rng i1 = Some (Inr (sel, i1))"
    by (simp add: fill_selection_full)
  from domain_queries_returns[OF sub, of zero_rng i1] l obtain qs i' where
    q: "domain_queries sel zero_rng i1 = Inr (qs, i')" "length qs = 3"
       "list_all (\<lambda>q. domain q \<in> set domain_keys) qs" by auto
  from assms(2) sel f q show ?thesis
    by (simp add: generate_next_queries_def generate_domain_exploration_queries_def Let_def)
qed

lemma pattern_round:
  assumes "current_phase st = Pattern_exploration"
    and "set (successful_domains (learned_patterns st)) \<subseteq> set domain_keys"
  shows "\<exists>qs st'. generate_next_queries st r i = Some (Inr qs, st')
           \<and> qs \<noteq> [] \<and> list_all (\<lambda>q. domain q \<in> set domain_keys) qs
           \<and> exploration_rounds st' = Suc (exploration_rounds st)
           \<and> current_phase st' =
               (if max_exploration_rounds st * 2 \<le> Suc (exploration_rounds st)
                then Optimization else Pattern_exploration)"
proof -
  let ?sd = "or_else (successful_domains (learned_patterns st)) domain_keys"
  let ?k = "min 2 (length ?sd)"
  have ne: "?sd \<noteq> []" by (simp add: or_else_def domain_keys_def domains_def)
  from assms(2) have sub: "set ?sd \<subseteq> set domain_keys" by (simp add: or_else_def)
  from ne have kpos: "0 < ?k" by (cases ?sd) simp_all
  have kle: "?k \<le> length ?sd" by simp
  obtain ds i1 where d: "draw_distinct ?k ?sd r i = (ds, i1)"
    by (cases "draw_distinct ?k ?sd r i")
  from draw_distinct_subset[OF kle, of r i] d sub
  have dl: "length ds = ?k" and dsub: "set ds \<subseteq> set domain_keys" by auto
  from pattern_queries_returns[OF dsub, of r i1] obtain qs i' where
    q: "pattern_queries ds r i1 = Inr (qs, i')" "length qs = length ds"
       "list_all (\<lambda>q. domain q \<in> set domain_keys) qs" by auto
  from q(2) dl kpos have "0 < length qs" by (simp only:)
  then have "qs \<noteq> []" by (cases qs) simp_all
  with assms(1) d q kle show ?thesis
    by (simp add: generate_next_queries_def generate_pattern_exploration_queries_def
          sample_def and_then_def Let_def)
qed

lemma exec_round:
  assumes "in_round st n p" "n < 6" "p = (if n < 3 then Domain_exploration else Pattern_exploration)"
  shows "\<exists>st'. exec (Generate zero_rng i) st = Some st'
           \<and> in_round st' (Suc n)
                (if Suc n < 3 then Domain_exploration
                 else if Suc n < 6 then Pattern_exploration else Optimization)
           \<and> learned_patterns st' = learned_patterns st"
proof -
  from assms(1) have inv: "weights_inv st"
    and sd: "set (successful_domains (learned_patterns st)) \<subseteq> set domain_keys"
    and m: "max_exploration_rounds st = 3" and n: "exploration_rounds st = n"
    and p: "current_phase st = p" by (simp_all add: in_round_def)
  have "\<exists>qs st'. generate_next_queries st zero_rng i = Some (Inr qs, st')
           \<and> exploration_rounds st' = Suc n
           \<and> current_phase st' =
               (if Suc n < 3 then Domain_exploration
                else if Suc n < 6 then Pattern_exploration else Optimization)"
  proof (cases "n < 3")
    case True
    with assms(3) p have "current_phase st = Domain_exploration" by simp
    from domain_round[OF inv this, of i] m n True show ?thesis by auto
  next
    case False
    with assms(3) p have "current_phase st = Pattern_exploration" by simp
    from pattern_round[OF this sd, of zero_rng i] m n False assms(2) show ?thesis by auto
  qed
  then obtain qs st' where g: "generate_next_queries st zero_rng i = Some (Inr qs, st')"
    and r: "exploration_rounds st' = Suc n"
    and c: "current_phase st' =
               (if Suc n < 3 then Domain_exploration
                else if Suc n < 6 then Pattern_exploration else Optimization)" by blast
  from generate_next_queries_frame[OF g] inv sd m r c have "in_round st' (Suc n)
                (if Suc n < 3 then Domain_exploration
                 else if Suc n < 6 then Pattern_exploration else Optimization)"
    by (simp add: in_round_def weights_inv_def)
  with g generate_next_queries_frame[OF g] show ?thesis by simp
qed

lemma run_six_rounds:
  assumes "in_round st 0 Domain_exploration"
  shows "\<exists>st'. run six_rounds st = Some st' \<and> current_phase st' = Optimization
           \<and> learned_patterns st' = learned_patterns st"
proof -
  from exec_round[OF assms, of 0] obtain s1 where
    1: "exec (Generate zero_rng 0) st = Some s1" "in_round s1 1 Domain_exploration"
       "learned_patterns s1 = learned_patterns st" by (auto simp: eval_nat_numeral)
  from exec_round[OF 1(2), of 0] obtain s2 where
    2: "exec (Generate zero_rng 0) s1 = Some s2" "in_round s2 2 Domain_exploration"
       "learned_patterns s2 = learned_patterns s1" by (auto simp: eval_nat_numeral)
  from exec_round[OF 2(2), of 0] obtain s3 where
    3: "exec (Generate zero_rng 0) s2 = Some s3" "in_round s3 3 Pattern_exploration"
       "learned_patterns s3 = learned_patterns s2" by (auto simp: eval_nat_numeral)
  from exec_round[OF 3(2), of 0] obtain s4 where
    4: "exec (Generate zero_rng 0) s3 = Some s4" "in_round s4 4 Pattern_exploration"
       "learned_patterns s4 = learned_patterns s3" by (auto simp: eval_nat_numeral)
  from exec_round[OF 4(2), of 0] obtain s5 where
    5: "exec (Generate zero_rng 0) s4 = Some s5" "in_round s5 5 Pattern_exploration"
       "learned_patterns s5 = learned_patterns s4" by (auto simp: eval_nat_numeral)
  from exec_round[OF 5(2), of 0] obtain s6 where
    6: "exec (Generate zero_rng 0) s5 = Some s6" "in_round s6 6 Optimization"
       "learned_patterns s6 = learned_patterns s5" by (auto simp: eval_nat_numeral)
  have six: "six_rounds = [Generate zero_rng 0, Generate zero_rng 0, Generate zero_rng 0,
          Generate zero_rng 0, Generate zero_rng 0, Generate zero_rng 0]"
    by (simp add: six_rounds_def eval_nat_numeral)
  have "run six_rounds st = Some s6"
    unfolding six by (simp only: run.simps 1(1) 2(1) 3(1) 4(1) 5(1) 6(1) option.case)
  moreover from 6(2) have "current_phase s6 = Optimization" by (simp add: in_round_def)
  ultimately show ?thesis using 1(3) 2(3) 3(3) 4(3) 5(3) 6(3) by simp
qed

lemma in_round_new: "in_round new_strategy 0 Domain_exploration"
  using weights_inv_new by (simp add: in_round_def) (simp add: new_strategy_def)

lemma optimization_returns:
  "current_phase st = Optimization \<Longrightarrow> exec (Generate r i) st \<noteq> None"
  by (simp add: generate_next_queries_def split: sum.splits prod.splits)

theorem phase_forward_only_witness:
  "run six_rounds new_strategy \<noteq> None
   \<and> current_phase new_strategy = Domain_exploration
   \<and> current_phase (the (run six_rounds new_strategy)) = Optimization
   \<and> phase_rank (current_phase new_strategy)
       \<le> phase_rank (current_phase (the (run six_rounds new_strategy)))
   \<and> run [Generate zero_rng 0] (the (run six_rounds new_strategy)) \<noteq> None
   \<and> current_phase (the (run [Generate zero_rng 0] (the (run six_rounds new_strategy))))
       = Optimization"
proof -
  from run_six_rounds[OF in_round_new] obtain s6 where
    r: "run six_rounds new_strategy = Some s6" and o: "current_phase s6 = Optimization" by blast
  from optimization_returns[OF o, of zero_rng 0] obtain s7 where
    e: "exec (Generate zero_rng 0) s6 = Some s7" by blast
  then have r7: "run [Generate zero_rng 0] s6 = Some s7" by (simp only: run.simps option.case)
  from phase_forward_only[OF r]
  have a: "phase_rank (current_phase new_strategy) \<le> phase_rank (current_phase s6)" by blast
  from phase_forward_only[OF r7] o have b: "current_phase s7 = Optimization" by blast
  have d: "current_phase new_strategy = Domain_exploration" by (simp add: new_strategy_def)
  from r o a r7 b d show ?thesis by simp
qed

lemma patterns_after_success:
  "rs \<noteq> [] \<Longrightarrow>
     successful_patterns (learned_patterns (snd (analyze_response st q rs))) =
       snd (scan_results q rs ({}, successful_patterns (learned_patterns st)))
     \<and> successful_domains (learned_patterns (snd (analyze_response st q rs))) =
       List.insert (identify_domain q) (successful_domains (learned_patterns st))"
  by (simp add: analyze_response_def Let_def split: option.splits prod.splits)

lemma identify_domain_advanced:
  "identify_domain ''advanced education'' = ''general_academic''"
  by (simp add: identify_domain_def domains_def str_split_def lower_def lower_char_def isspace_def)

lemma identify_query_pattern_advanced:
  "identify_query_pattern ''advanced education'' = ''specific''"
  by code_simp

lemma learned_from_advanced:
  "successful_patterns (learned_patterns
      (snd (analyze_response new_strategy ''advanced education'' [specific_result]))) = [''specific'']
   \<and> successful_domains (learned_patterns
      (snd (analyze_response new_strategy ''advanced education'' [specific_result])))
       = [''general_academic'']"
  by (simp add: patterns_after_success identify_domain_advanced identify_query_pattern_advanced
        specific_result_def Let_def)
     (simp add: new_strategy_def)

lemma in_round_advanced:
  "in_round (snd (analyze_response new_strategy ''advanced education'' [specific_result]))
     0 Domain_exploration"
  using weights_inv_analyze_response[OF weights_inv_new, of "''advanced education''" "[specific_result]"]
    learned_from_advanced
    analyze_response_phase[of new_strategy "''advanced education''" "[specific_result]"]
  by (simp add: in_round_def) (simp add: new_strategy_def domain_keys_def domains_def)

lemma optimized_queries_raise:
  "current_phase st = Optimization \<Longrightarrow>
   successful_patterns (learned_patterns st) = [''specific''] \<Longrightarrow>
   successful_domains (learned_patterns st) = [''general_academic''] \<Longrightarrow>
     generate_next_queries st r i = Some (Inl (KeyError ''specific''), st)"
  by (simp add: generate_next_queries_def generate_optimized_queries_def or_else_def sample_def
        and_then_def choice_def lookup_def domains_def query_patterns_def Let_def)

text \<open>
  C1 fails on the code. A successful query \<open>advanced education\<close> with a result scored 0.9
  records the label \<open>specific\<close> in \<open>successful_patterns\<close>; the labels that
  \<open>_identify_query_pattern\<close> gives are not keys of \<open>query_patterns\<close> (only \<open>simple\<close>
  is). After six rounds the strategy is in \<open>optimization\<close>, and from then on
  \<open>generate_next_queries\<close> raises \<open>KeyError\<close> whatever the random generator draws.
\<close>

theorem optimization_round_raises:
  "run optimizing_calls new_strategy \<noteq> None
   \<and> current_phase (the (run optimizing_calls new_strategy)) = Optimization
   \<and> generate_next_queries (the (run optimizing_calls new_strategy)) r i
       = Some (Inl (KeyError ''specific''), the (run optimizing_calls new_strategy))"
proof -
  let ?st0 = "snd (analyze_response new_strategy ''advanced education'' [specific_result])"
  from run_six_rounds[OF in_round_advanced] obtain s6 where
    r: "run six_rounds ?st0 = Some s6" and o: "current_phase s6 = Optimization"
    and l: "learned_patterns s6 = learned_patterns ?st0" by blast
  from r have run: "run optimizing_calls new_strategy = Some s6"
    by (simp add: optimizing_calls_def)
  from learned_from_advanced l
  have "successful_patterns (learned_patterns s6) = [''specific'']"
    "successful_domains (learned_patterns s6) = [''general_academic'']" by simp_all
  from optimized_queries_raise[OF o this, of r i] run o show ?thesis by simp
qed

subsection \<open>What a returning call returns\<close>

text \<open>
  Whenever \<open>generate_next_queries\<close> returns a list, in any state and under any random
  source, the list is non-empty and the domain of every entry is a catalog key: three
  entries in domain exploration, one or two otherwise. A call fails to deliver such a
  list only by raising or, in domain exploration, by not ending.
\<close>

lemma lookup_domains_key: "lookup domains d = Inr terms \<Longrightarrow> d \<in> set domain_keys"
  by (auto simp: lookup_def domain_keys_def split: option.splits dest!: map_of_SomeD
           intro: rev_image_eqI)

lemma fill_selection_result:
  assumes "fill_selection selected r i = Some y"
  shows "case y of Inl e \<Rightarrow> True | Inr (sel, i') \<Rightarrow> 3 \<le> length sel"
proof (rule fill_selection.raw_induct
         [where P = "\<lambda>_ _ _ y. case y of Inl e \<Rightarrow> True | Inr (sel, i') \<Rightarrow> 3 \<le> length sel",
          OF _ assms], goal_cases)
  case (1 fill selected r i y)
  from 1(2) show ?case
    by (auto split: if_splits sum.splits prod.splits dest: 1(1))
qed

lemma fill_selection_length:
  "fill_selection selected r i = Some (Inr (sel, i')) \<Longrightarrow> 3 \<le> length sel"
  using fill_selection_result[of selected r i "Inr (sel, i')"] by simp

lemma domain_queries_catalog:
  "domain_queries ds r i = Inr (qs, i') \<Longrightarrow>
     length qs = length ds \<and> list_all (\<lambda>q. domain q \<in> set domain_keys) qs"
proof (induction ds arbitrary: i qs i')
  case Nil
  then show ?case by simp
next
  case (Cons d ds)
  from Cons.prems obtain terms t i1 qs' where
    "lookup domains d = Inr terms" "choice terms r i = Inr (t, i1)"
    "domain_queries ds r i1 = Inr (qs', i')"
    "qs = \<lparr>query = t, qtype = ''domain_exploration'',
             description = ''Testing '' @ d @ '' domain'', domain = d\<rparr> # qs'"
    by (auto simp: and_then_def split: sum.splits prod.splits)
  with Cons.IH[of i1 qs' i'] lookup_domains_key show ?case by auto
qed

lemma pattern_queries_catalog:
  "pattern_queries ds r i = Inr (qs, i') \<Longrightarrow>
     length qs = length ds \<and> list_all (\<lambda>q. domain q \<in> set domain_keys) qs"
proof (induction ds arbitrary: i qs i')
  case Nil
  then show ?case by simp
next
  case (Cons d ds)
  from Cons.prems obtain terms i3 qs' e where
    "lookup domains d = Inr terms" "pattern_queries ds r i3 = Inr (qs', i')"
    "qs = e # qs'" "domain e = d"
    by (auto simp: and_then_def split: sum.splits prod.splits)
  with Cons.IH[of i3 qs' i'] lookup_domains_key show ?case by auto
qed

lemma optimized_queries_catalog:
  "optimized_queries ps ds r i = Inr (qs, i') \<Longrightarrow>
     length qs = length ds \<and> list_all (\<lambda>q. domain q \<in> set domain_keys) qs"
proof (induction ds arbitrary: i qs i')
  case Nil
  then show ?case by simp
next
  case (Cons d ds)
  from Cons.prems obtain terms i3 qs' e where
    "lookup domains d = Inr terms" "optimized_queries ps ds r i3 = Inr (qs', i')"
    "qs = e # qs'" "domain e = d"
    by (auto simp: and_then_def split: sum.splits prod.splits)
  with Cons.IH[of i3 qs' i'] lookup_domains_key show ?case by auto
qed

lemma sample_length:
  "sample xs k r i = Inr (ds, i') \<Longrightarrow> length ds = k"
  using draw_distinct_subset[of k xs r i] by (auto simp: sample_def split: if_splits)

lemma or_else_keys_nonempty: "or_else xs domain_keys \<noteq> []"
  by (simp add: or_else_def domain_keys_def domains_def)

lemma returned_queries_catalog:
  "generate_next_queries st r i = Some (Inr qs, st') \<Longrightarrow>
     qs \<noteq> [] \<and> list_all (\<lambda>q. domain q \<in> set domain_keys) qs"
proof (cases "current_phase st")
  case Domain_exploration
  assume "generate_next_queries st r i = Some (Inr qs, st')"
  with Domain_exploration obtain sel0 i1 sel i2 i3 where
    "fill_selection sel0 r i1 = Some (Inr (sel, i2))" "domain_queries sel r i2 = Inr (qs, i3)"
    by (auto simp: generate_next_queries_def generate_domain_exploration_queries_def Let_def
             split: option.splits sum.splits prod.splits)
  from fill_selection_length[OF this(1)] domain_queries_catalog[OF this(2)] show ?thesis
    by auto
next
  case Pattern_exploration
  let ?sd = "or_else (successful_domains (learned_patterns st)) domain_keys"
  assume "generate_next_queries st r i = Some (Inr qs, st')"
  with Pattern_exploration obtain ds i1 i2 where
    "sample ?sd (min 2 (length ?sd)) r i = Inr (ds, i1)" "pattern_queries ds r i1 = Inr (qs, i2)"
    by (auto simp: generate_next_queries_def generate_pattern_exploration_queries_def Let_def
          and_then_def split: option.splits sum.splits prod.splits)
  from sample_length[OF this(1)] pattern_queries_catalog[OF this(2)]
    or_else_keys_nonempty[of "successful_domains (learned_patterns st)"]
  show ?thesis by (cases ?sd) auto
next
  case Optimization
  let ?sd = "or_else (successful_domains (learned_patterns st)) domain_keys"
  let ?ps = "or_else (successful_patterns (learned_patterns st)) (map fst query_patterns)"
  assume "generate_next_queries st r i = Some (Inr qs, st')"
  with Optimization obtain ds i1 i2 where
    "sample ?sd (min 2 (length ?sd)) r i = Inr (ds, i1)"
    "optimized_queries ?ps ds r i1 = Inr (qs, i2)"
    by (auto simp: generate_next_queries_def generate_optimized_queries_def Let_def
          and_then_def split: option.splits sum.splits prod.splits)
  from sample_length[OF this(1)] optimized_queries_catalog[OF this(2)]
    or_else_keys_nonempty[of "successful_domains (learned_patterns st)"]
  show ?thesis by (cases ?sd) auto
qed

end
